theory Spec2Isabelle
  imports Main "HOL-Library.Sublist"
begin

section \<open>Library functions used by the fetcher\<close>

text \<open>
  The fetcher (\<^verbatim>\<open>lib/github_fetch/github_fetch.go\<close>) calls three functions of the Go
  standard library on entry names. They are modelled after their documented behaviour.

  \<^verbatim>\<open>strings.Split(s, "/")\<close> cuts \<open>s\<close> at every separator and always returns
  at least one piece: the empty string gives one empty piece.
\<close>

primrec Split :: "string \<Rightarrow> char \<Rightarrow> string list" where
  "Split [] sep = [[]]"
| "Split (c # cs) sep =
     (if c = sep then [] # Split cs sep
      else (case Split cs sep of w # ws \<Rightarrow> (c # w) # ws | [] \<Rightarrow> [[c]]))"

text \<open>\<^verbatim>\<open>strings.Join(elems, sep)\<close>: the pieces with \<open>sep\<close> between neighbours.\<close>

fun Join :: "string list \<Rightarrow> string \<Rightarrow> string" where
  "Join [] sep = []"
| "Join [x] sep = x"
| "Join (x # y # ys) sep = x @ sep @ Join (y # ys) sep"

text \<open>\<^verbatim>\<open>path.IsAbs(p)\<close>: \<open>len(p) > 0 && p[0] == '/'\<close>.\<close>

definition IsAbs :: "string \<Rightarrow> bool" where
  "IsAbs p = (case p of [] \<Rightarrow> False | c # _ \<Rightarrow> c = CHR ''/'')"

section \<open>Data model\<close>

text \<open>The fields of \<^verbatim>\<open>tar.Header\<close> that identify an entry.\<close>

record header =
  Name :: string
  Typeflag :: char
  Linkname :: string
  Size :: int
  Mode :: int

text \<open>
  Errors are values. \<open>Lib\<close> is an error produced by a library call (gzip, tar, pipe)
  that the code hands on unchanged; the other constructors are the messages the code
  builds itself with \<^verbatim>\<open>fmt.Errorf\<close>.
\<close>

datatype error =
    Lib string
  | AbsolutePathError string
  | MatchingError string
  | GettingDockerignoreError string
  | GettingContentError string
  | ParsingError string
  | ParsingFileError error
  | ArchiveLinkError string
  | ArchiveLinkStatusError string
  | UrlIsNil
  | CreatingRequestError string
  | PerformingRequestError string
  | ResponseIsNil
  | ArchiveRequestFailed int

text \<open>
  One entry as the tar reader delivers it: the header returned by \<^verbatim>\<open>Next()\<close>, the
  payload bytes that \<^verbatim>\<open>io.Copy\<close> obtains from the reader, and the read error that
  ends the copy early, if any.
\<close>

record item =
  hdr :: header
  body :: string
  read_err :: "string option"

text \<open>
  The source stream \<^verbatim>\<open>t.tarball\<close>, seen through the two decoders: either
  \<^verbatim>\<open>gzip.NewReader\<close> rejects it, or it yields a sequence of entries and then ends,
  with \<^verbatim>\<open>io.EOF\<close> (\<open>None\<close>) or with a decoding error from \<^verbatim>\<open>Next()\<close>.
\<close>

datatype source = NotGzip string | Gzip "item list" "string option"

text \<open>
  The capabilities the transform takes from outside the repository:
  \<^verbatim>\<open>fileutils.Matches\<close> of the docker library, and the two operations of
  \<^verbatim>\<open>tar.Writer\<close> that can refuse an entry.
\<close>

record env =
  Matches :: "string \<Rightarrow> string list \<Rightarrow> string + bool"
  WriteHeader :: "header \<Rightarrow> string option"
  Flush :: "header \<Rightarrow> string \<Rightarrow> string option"

record tarPrefixStripper =
  tarball :: source
  excludes :: "string list"

text \<open>
  What the session has done to its streams: the entries written to the output tar
  writer in order (header and the payload bytes copied), how often the tar writer, the
  pipe writer and the source were closed, and the error handed to the consumer when the
  pipe was closed (\<open>None\<close> is a clean end of stream).
\<close>

record pipe =
  written :: "(header \<times> string) list"
  tw_closed :: nat
  pw_closed :: nat
  pw_err :: "error option"
  src_closed :: nat

definition newPipe :: pipe where
  "newPipe = \<lparr>written = [], tw_closed = 0, pw_closed = 0, pw_err = None, src_closed = 0\<rparr>"

definition newTarPrefixStripper :: "source \<Rightarrow> string list \<Rightarrow> tarPrefixStripper" where
  "newTarPrefixStripper tb ex = \<lparr>tarball = tb, excludes = ex\<rparr>"

section \<open>The transform\<close>

definition shouldSkipDockerIgnoredFile ::
  "env \<Rightarrow> tarPrefixStripper \<Rightarrow> header \<Rightarrow> bool \<times> error option" where
  "shouldSkipDockerIgnoredFile env t h =
     (case Matches env (Name h) (excludes t) of
        Inl _ \<Rightarrow> (False, Some (MatchingError (Name h)))
      | Inr m \<Rightarrow> (m, None))"

text \<open>
  \<^verbatim>\<open>processHeader\<close> renames the header in place; the model returns the header as
  it is after the call, together with the two results.
\<close>

definition processHeader ::
  "env \<Rightarrow> tarPrefixStripper \<Rightarrow> header \<Rightarrow> header \<times> bool \<times> error option" where
  "processHeader env t h =
     (if Name h = ''pax_global_header'' then (h, True, None)
      else if IsAbs (Name h) then (h, True, Some (AbsolutePathError (Name h)))
      else
        let spath = Split (Name h) CHR ''/'' in
        if length spath = 2 \<and> spath ! 1 = [] then (h, True, None)
        else
          let h' = h\<lparr>Name := Join (drop 1 spath) ''/''\<rparr>
          in (h', shouldSkipDockerIgnoredFile env t h'))"

text \<open>\<^verbatim>\<open>PipeWriter.CloseWithError\<close>: the first close decides what the reader sees.\<close>

definition CloseWithError :: "error option \<Rightarrow> pipe \<Rightarrow> pipe" where
  "CloseWithError e p =
     p\<lparr>pw_closed := pw_closed p + 1,
       pw_err := (if pw_closed p = 0 then e else pw_err p)\<rparr>"

text \<open>The closure \<^verbatim>\<open>closeFunc\<close> of \<^verbatim>\<open>startStrippingPipe\<close>, in its order.\<close>

definition closeFunc :: "error option \<Rightarrow> pipe \<Rightarrow> pipe" where
  "closeFunc e p =
     (let p1 = p\<lparr>tw_closed := tw_closed p + 1\<rparr>;
          p2 = CloseWithError e p1
      in p2\<lparr>src_closed := src_closed p2 + 1\<rparr>)"

text \<open>
  The \<^verbatim>\<open>for\<close> loop of \<^verbatim>\<open>startStrippingPipe\<close>: one round per entry the reader
  delivers; the empty list is the round in which \<^verbatim>\<open>Next()\<close> reports the end.
\<close>

fun strippingLoop ::
  "env \<Rightarrow> tarPrefixStripper \<Rightarrow> item list \<Rightarrow> string option \<Rightarrow> pipe \<Rightarrow> pipe" where
  "strippingLoop env t [] fin p =
     (case fin of None \<Rightarrow> closeFunc None p | Some e \<Rightarrow> closeFunc (Some (Lib e)) p)"
| "strippingLoop env t (it # its) fin p =
     (let (h, skip, err) = processHeader env t (hdr it) in
      case err of
        Some e \<Rightarrow> closeFunc (Some e) p
      | None \<Rightarrow>
          if skip then strippingLoop env t its fin p
          else
            (case WriteHeader env h of
               Some e \<Rightarrow> closeFunc (Some (Lib e)) p
             | None \<Rightarrow>
                 let p1 = p\<lparr>written := written p @ [(h, body it)]\<rparr> in
                 (case read_err it of
                    Some e \<Rightarrow> closeFunc (Some (Lib e)) p1
                  | None \<Rightarrow>
                      (case Flush env h (body it) of
                         Some e \<Rightarrow> closeFunc (Some (Lib e)) p1
                       | None \<Rightarrow> strippingLoop env t its fin p1))))"

definition startStrippingPipe :: "env \<Rightarrow> tarPrefixStripper \<Rightarrow> pipe \<Rightarrow> pipe" where
  "startStrippingPipe env t p =
     (case tarball t of
        NotGzip e \<Rightarrow> CloseWithError (Some (Lib e)) p
      | Gzip its fin \<Rightarrow> strippingLoop env t its fin p)"

text \<open>
  A transform session: the stripper built by \<^verbatim>\<open>newTarPrefixStripper\<close>, whose first
  \<^verbatim>\<open>Read\<close> starts \<^verbatim>\<open>startStrippingPipe\<close> on a fresh pipe, read to its end.
\<close>

definition transform :: "env \<Rightarrow> source \<Rightarrow> string list \<Rightarrow> pipe" where
  "transform env tb ex = startStrippingPipe env (newTarPrefixStripper tb ex) newPipe"

section \<open>The fetch operation\<close>

text \<open>
  The remote service is used through the go-github client and \<^verbatim>\<open>net/http\<close>. A call
  is modelled by what it returns; a pointer result that may be \<^verbatim>\<open>nil\<close> is an
  \<open>option\<close>, and a returned \<^verbatim>\<open>error\<close> value is the message it carries.
\<close>

record Response =
  StatusCode :: int
  Status :: string

record RepositoryContent =
  Encoding :: "string option"
  Content :: "string option"

record httpResponse =
  HttpStatusCode :: int
  Body :: source

record remote =
  GetContents ::
    "string \<Rightarrow> string \<Rightarrow> string \<Rightarrow> string \<Rightarrow>
       RepositoryContent option \<times> Response option \<times> string option"
  GetContent :: "RepositoryContent option \<Rightarrow> string + string"
  ReadAll :: "string \<Rightarrow> string + string list"
  GetArchiveLink ::
    "string \<Rightarrow> string \<Rightarrow> string \<Rightarrow> string option \<times> Response option \<times> string option"
  NewRequest :: "string \<Rightarrow> string + string"
  Do :: "string \<Rightarrow> httpResponse option \<times> string option"

text \<open>
  A Go call either returns its results or panics; reading a field through a
  \<^verbatim>\<open>nil\<close> pointer panics.
\<close>

datatype 'a outcome = Returns 'a | Panics

definition dockerIgnorePath :: string where
  "dockerIgnorePath = ''.dockerignore''"

definition parseDockerIgnoreIfExists ::
  "remote \<Rightarrow> string \<Rightarrow> string \<Rightarrow> string \<Rightarrow> (error + string list) outcome" where
  "parseDockerIgnoreIfExists gf owner repo ref =
     (let (fc, resp, err) = GetContents gf owner repo dockerIgnorePath ref in
      case err of
        Some e \<Rightarrow>
          (case resp of
             None \<Rightarrow> Panics
           | Some r \<Rightarrow>
               if StatusCode r = 404 then Returns (Inr [])
               else Returns (Inl (GettingDockerignoreError e)))
      | None \<Rightarrow>
          (case GetContent gf fc of
             Inl e \<Rightarrow> Returns (Inl (GettingContentError e))
           | Inr content \<Rightarrow>
               (case ReadAll gf content of
                  Inl e \<Rightarrow> Returns (Inl (ParsingError e))
                | Inr ex \<Rightarrow> Returns (Inr ex))))"

definition getArchive :: "remote \<Rightarrow> string \<Rightarrow> string list \<Rightarrow> error + tarPrefixStripper" where
  "getArchive gf archiveURL ex =
     (case NewRequest gf archiveURL of
        Inl e \<Rightarrow> Inl (CreatingRequestError e)
      | Inr hr \<Rightarrow>
          (let (resp, err) = Do gf hr in
           case err of
             Some e \<Rightarrow> Inl (PerformingRequestError e)
           | None \<Rightarrow>
               (case resp of
                  None \<Rightarrow> Inl ResponseIsNil
                | Some r \<Rightarrow>
                    if HttpStatusCode r > 299 then Inl (ArchiveRequestFailed (HttpStatusCode r))
                    else Inr (newTarPrefixStripper (Body r) ex))))"

text \<open>
  The part of \<^verbatim>\<open>Get\<close> after the exclusion patterns are known: the archive link
  and the download.
\<close>

definition fetchArchive ::
  "remote \<Rightarrow> string \<Rightarrow> string \<Rightarrow> string \<Rightarrow> string list \<Rightarrow> (error + tarPrefixStripper) outcome" where
  "fetchArchive gf owner repo ref ex =
     (let (url, resp, err) = GetArchiveLink gf owner repo ref in
      case err of
        Some e \<Rightarrow> Returns (Inl (ArchiveLinkError e))
      | None \<Rightarrow>
          (case resp of
             None \<Rightarrow> Panics
           | Some r \<Rightarrow>
               if StatusCode r > 399 then Returns (Inl (ArchiveLinkStatusError (Status r)))
               else
                 (case url of
                    None \<Rightarrow> Returns (Inl UrlIsNil)
                  | Some u \<Rightarrow> Returns (getArchive gf u ex))))"

definition Get ::
  "remote \<Rightarrow> string \<Rightarrow> string \<Rightarrow> string \<Rightarrow> (error + tarPrefixStripper) outcome" where
  "Get gf owner repo ref =
     (case parseDockerIgnoreIfExists gf owner repo ref of
        Panics \<Rightarrow> Panics
      | Returns (Inl e) \<Rightarrow> Returns (Inl (ParsingFileError e))
      | Returns (Inr ex) \<Rightarrow> fetchArchive gf owner repo ref ex)"

section \<open>Notions of the specification\<close>

text \<open>
  The specification speaks of a name with \<^emph>\<open>exactly its first path segment removed\<close>:
  the characters up to the first delimiter go, and that delimiter with them. This is
  written here without reference to the code's split and join.
\<close>

definition strip_first_segment :: "string \<Rightarrow> string" where
  "strip_first_segment n = drop 1 (dropWhile (\<lambda>c. c \<noteq> CHR ''/'') n)"

text \<open>The output entry that corresponds to a source entry: renamed header, same payload.\<close>

definition emitted_for :: "item \<Rightarrow> header \<times> string" where
  "emitted_for it = ((hdr it)\<lparr>Name := strip_first_segment (Name (hdr it))\<rparr>, body it)"

definition entries :: "source \<Rightarrow> item list" where
  "entries src = (case src of NotGzip _ \<Rightarrow> [] | Gzip its _ \<Rightarrow> its)"

text \<open>
  The bare top-level directory entry: a name that is one segment followed by the
  delimiter and nothing else.
\<close>

definition bare_top_directory :: "string \<Rightarrow> bool" where
  "bare_top_directory n = (n \<noteq> [] \<and> last n = CHR ''/'' \<and> CHR ''/'' \<notin> set (butlast n))"

text \<open>A metadata or synthetic entry: the pseudo-metadata header or the bare top directory.\<close>

definition is_metadata :: "item \<Rightarrow> bool" where
  "is_metadata it =
     (Name (hdr it) = ''pax_global_header'' \<or> bare_top_directory (Name (hdr it)))"

text \<open>
  An excluded entry: one that is renamed (so not a metadata entry) and whose name after
  the rename the matcher reports as matching the patterns.
\<close>

definition is_excluded :: "env \<Rightarrow> string list \<Rightarrow> item \<Rightarrow> bool" where
  "is_excluded env ex it =
     (\<not> is_metadata it \<and>
      Matches env (strip_first_segment (Name (hdr it))) ex = Inr True)"

text \<open>
  A well-formed archive gives the session no reason to stop before the end of the source:
  the stream decodes up to a clean end, no name is absolute, the matcher answers for every
  renamed name, and the tar writer accepts every entry that is to be written.
\<close>

definition well_formed_item :: "env \<Rightarrow> string list \<Rightarrow> item \<Rightarrow> bool" where
  "well_formed_item env ex it =
     (let n' = strip_first_segment (Name (hdr it)); h' = (hdr it)\<lparr>Name := n'\<rparr> in
      \<not> IsAbs (Name (hdr it)) \<and>
      (is_metadata it \<or> Matches env n' ex = Inr True \<or>
       (Matches env n' ex = Inr False \<and> WriteHeader env h' = None \<and>
        read_err it = None \<and> Flush env h' (body it) = None)))"

definition well_formed :: "env \<Rightarrow> string list \<Rightarrow> source \<Rightarrow> bool" where
  "well_formed env ex src =
     (case src of
        NotGzip _ \<Rightarrow> False
      | Gzip its fin \<Rightarrow> fin = None \<and> list_all (well_formed_item env ex) its)"

section \<open>Values for the worked examples\<close>

text \<open>
  An environment whose matcher excludes exactly the listed names and whose tar writer
  accepts everything, and a regular file entry with a given name and payload.
\<close>

definition example_env :: env where
  "example_env =
     \<lparr>Matches = (\<lambda>n ps. Inr (n \<in> set ps)), WriteHeader = (\<lambda>_. None), Flush = (\<lambda>_ _. None)\<rparr>"

definition file_header :: "string \<Rightarrow> string \<Rightarrow> header" where
  "file_header n b =
     \<lparr>Name = n, Typeflag = CHR ''0'', Linkname = [], Size = int (length b), Mode = 420\<rparr>"

definition file_item :: "string \<Rightarrow> string \<Rightarrow> item" where
  "file_item n b = \<lparr>hdr = file_header n b, body = b, read_err = None\<rparr>"

text \<open>
  Two remote services: one on which the repository has no ignore file (the content call
  fails with status 404) and the archive is served, and one that cannot be reached (the
  content call fails without a response).
\<close>

definition example_source :: source where
  "example_source =
     Gzip [file_item ''pax_global_header'' ''c'', file_item ''r/'' [],
           file_item ''r/a.go'' ''A'', file_item ''r/b.log'' ''B''] None"

definition example_remote :: remote where
  "example_remote =
     \<lparr>GetContents =
        (\<lambda>_ _ _ _. (None, Some \<lparr>StatusCode = 404, Status = ''404 Not Found''\<rparr>, Some ''404 Not Found'')),
      GetContent = (\<lambda>_. Inl ''no content''),
      ReadAll = (\<lambda>_. Inr []),
      GetArchiveLink =
        (\<lambda>_ _ _. (Some ''https://codeload.example/tarball'',
           Some \<lparr>StatusCode = 302, Status = ''302 Found''\<rparr>, None)),
      NewRequest = (\<lambda>u. Inr u),
      Do = (\<lambda>_. (Some \<lparr>HttpStatusCode = 200, Body = example_source\<rparr>, None))\<rparr>"

definition unreachable_remote :: remote where
  "unreachable_remote =
     example_remote\<lparr>GetContents := (\<lambda>_ _ _ _. (None, None, Some ''dial tcp: i/o timeout''))\<rparr>"

lemmas run_defs =
  transform_def startStrippingPipe_def newTarPrefixStripper_def newPipe_def
  processHeader_def shouldSkipDockerIgnoredFile_def IsAbs_def Let_def
  closeFunc_def CloseWithError_def example_env_def file_item_def file_header_def
  entries_def emitted_for_def strip_first_segment_def

lemmas spec_defs =
  well_formed_def well_formed_item_def is_metadata_def is_excluded_def
  bare_top_directory_def

section \<open>Splitting and joining names\<close>

lemma Split_ne: "Split s sep \<noteq> []"
  by (induction s) (auto split: list.splits)

lemma Join_Split: "Join (Split s c) [c] = s"
proof (induction s)
  case Nil show ?case by simp
next
  case (Cons a s)
  then show ?case using Split_ne[of s c]
    by (cases "Split s c"; cases "tl (Split s c)") auto
qed

lemma Join_drop_Split: "Join (drop 1 (Split n CHR ''/'')) ''/'' = strip_first_segment n"
  unfolding strip_first_segment_def
proof (induction n)
  case Nil show ?case by simp
next
  case (Cons a s)
  then show ?case using Split_ne[of s "CHR ''/''"] Join_Split[of s "CHR ''/''"]
    by (cases "Split s CHR ''/''") (auto simp: drop_Suc)
qed

lemma Split_single: "length (Split s c) = 1 \<longleftrightarrow> c \<notin> set s"
  using Split_ne[of _ c] by (induction s) (auto split: list.splits)

lemma Split_single_eq: "c \<notin> set s \<Longrightarrow> Split s c = [s]"
  by (induction s) auto

lemma top_dir_check:
  "(length (Split n CHR ''/'') = 2 \<and> Split n CHR ''/'' ! 1 = []) \<longleftrightarrow> bare_top_directory n"
  unfolding bare_top_directory_def
proof (induction n)
  case Nil show ?case by simp
next
  case (Cons a s)
  show ?case
  proof (cases "a = CHR ''/''")
    case True
    then show ?thesis using Split_single[of s "CHR ''/''"] Split_single_eq[of "CHR ''/''" s]
      by (cases s) (auto)
  next
    case False
    then show ?thesis using Cons Split_ne[of s "CHR ''/''"]
      by (cases s; cases "Split s CHR ''/''"; cases "tl (Split s CHR ''/'')") (auto)
  qed
qed

section \<open>Facts about \<^verbatim>\<open>processHeader\<close> and the loop\<close>

lemma processHeader_eq:
  "processHeader env t h =
     (if Name h = ''pax_global_header'' then (h, True, None)
      else if IsAbs (Name h) then (h, True, Some (AbsolutePathError (Name h)))
      else if bare_top_directory (Name h) then (h, True, None)
      else (h\<lparr>Name := strip_first_segment (Name h)\<rparr>,
            shouldSkipDockerIgnoredFile env t (h\<lparr>Name := strip_first_segment (Name h)\<rparr>)))"
  using top_dir_check[of "Name h"] Join_drop_Split[of "Name h"]
  by (simp add: processHeader_def Let_def)

lemma processHeader_keep:
  assumes "processHeader env t (hdr it) = (h, False, None)"
  shows "(h, body it) = emitted_for it"
    and "Matches env (strip_first_segment (Name (hdr it))) (excludes t) = Inr False"
    and "\<not> is_metadata it" and "\<not> IsAbs (Name (hdr it))"
  using assms
  by (auto simp: processHeader_eq shouldSkipDockerIgnoredFile_def emitted_for_def is_metadata_def
      split: if_splits sum.splits)

lemma written_closeFunc [simp]: "written (closeFunc e p) = written p"
  by (simp add: closeFunc_def CloseWithError_def Let_def)

lemma pw_err_closeFunc [simp]:
  "pw_err (closeFunc e p) = (if pw_closed p = 0 then e else pw_err p)"
  by (simp add: closeFunc_def CloseWithError_def Let_def)

lemma counts_closeFunc [simp]:
  "tw_closed (closeFunc e p) = tw_closed p + 1"
  "pw_closed (closeFunc e p) = pw_closed p + 1"
  "src_closed (closeFunc e p) = src_closed p + 1"
  by (simp_all add: closeFunc_def CloseWithError_def Let_def)

lemma loop_written_subseq:
  "\<exists>ys. subseq ys its \<and>
        (\<forall>it\<in>set ys. Matches env (strip_first_segment (Name (hdr it))) (excludes t) = Inr False) \<and>
        written (strippingLoop env t its fin p) = written p @ map emitted_for ys"
proof (induction its arbitrary: p)
  case Nil
  show ?case by (auto split: option.splits)
next
  case (Cons it its)
  obtain h skip err where ph: "processHeader env t (hdr it) = (h, skip, err)"
    by (metis prod_cases3)
  let ?P = "\<lambda>ys. \<forall>it\<in>set ys.
      Matches env (strip_first_segment (Name (hdr it))) (excludes t) = Inr False"
  show ?case
  proof (cases err)
    case (Some e)
    with ph have "written (strippingLoop env t (it # its) fin p) = written p @ map emitted_for []"
      by simp
    then show ?thesis by (metis list_emb_Nil empty_iff list.set(1))
  next
    case None
    show ?thesis
    proof (cases skip)
      case True
      from Cons.IH[of p] obtain ys where ys: "subseq ys its" "?P ys"
        "written (strippingLoop env t its fin p) = written p @ map emitted_for ys" by blast
      from ph None True have "strippingLoop env t (it # its) fin p = strippingLoop env t its fin p"
        by simp
      with ys show ?thesis by (metis list_emb_Cons)
    next
      case False
      with ph None have ph': "processHeader env t (hdr it) = (h, False, None)" by simp
      note keep = processHeader_keep[OF ph']
      let ?p1 = "p\<lparr>written := written p @ [(h, body it)]\<rparr>"
      have one: "subseq [it] (it # its)" "?P [it]"
        "written ?p1 = written p @ map emitted_for [it]"
        using keep by simp_all
      consider (stop0) "written (strippingLoop env t (it # its) fin p) = written p"
        | (stop1) "written (strippingLoop env t (it # its) fin p) = written ?p1"
        | (go) "strippingLoop env t (it # its) fin p = strippingLoop env t its fin ?p1"
        using ph'
        by (cases "WriteHeader env h"; cases "read_err it"; cases "Flush env h (body it)")
          (auto simp: Let_def)
      then show ?thesis
      proof cases
        case stop0
        then have "written (strippingLoop env t (it # its) fin p) = written p @ map emitted_for []"
          by simp
        then show ?thesis by (metis list_emb_Nil empty_iff list.set(1))
      next
        case stop1
        with one show ?thesis by metis
      next
        case go
        from Cons.IH[of ?p1] obtain ys where ys: "subseq ys its" "?P ys"
          "written (strippingLoop env t its fin ?p1) = written ?p1 @ map emitted_for ys" by blast
        have "subseq (it # ys) (it # its)" using ys(1) by simp
        moreover have "?P (it # ys)" using ys(2) keep(2) by simp
        moreover have "written (strippingLoop env t (it # its) fin p)
            = written p @ map emitted_for (it # ys)"
          using go ys(3) keep(1) by simp
        ultimately show ?thesis by blast
      qed
    qed
  qed
qed

lemma loop_counts:
  "tw_closed (strippingLoop env t its fin p) = tw_closed p + 1 \<and>
   pw_closed (strippingLoop env t its fin p) = pw_closed p + 1 \<and>
   src_closed (strippingLoop env t its fin p) = src_closed p + 1"
proof (induction its arbitrary: p)
  case Nil
  show ?case by (simp split: option.splits)
next
  case (Cons it its)
  obtain h skip err where ph: "processHeader env t (hdr it) = (h, skip, err)"
    by (metis prod_cases3)
  show ?case using ph Cons.IH[of p] Cons.IH[of "p\<lparr>written := written p @ [(h, body it)]\<rparr>"]
    by (simp add: Let_def split: option.splits)
qed

lemma loop_well_formed:
  assumes "list_all (well_formed_item env (excludes t)) its"
  shows "strippingLoop env t its None p =
     closeFunc None (p\<lparr>written := written p @
        map emitted_for (filter (\<lambda>it. \<not> is_metadata it \<and> \<not> is_excluded env (excludes t) it) its)\<rparr>)"
  using assms
proof (induction its arbitrary: p)
  case Nil
  show ?case by simp
next
  case (Cons it its)
  then have wf: "well_formed_item env (excludes t) it"
    and rest: "list_all (well_formed_item env (excludes t)) its" by simp_all
  let ?n = "strip_first_segment (Name (hdr it))"
  let ?h = "(hdr it)\<lparr>Name := ?n\<rparr>"
  show ?case
  proof (cases "is_metadata it")
    case True
    with wf have "processHeader env t (hdr it) = (hdr it, True, None)"
      by (auto simp: processHeader_eq is_metadata_def well_formed_item_def Let_def)
    then show ?thesis using True Cons.IH[OF rest, of p] by simp
  next
    case meta: False
    then have base: "processHeader env t (hdr it) = (?h, shouldSkipDockerIgnoredFile env t ?h)"
      using wf by (auto simp: processHeader_eq is_metadata_def well_formed_item_def Let_def)
    show ?thesis
    proof (cases "Matches env ?n (excludes t) = Inr True")
      case True
      then have "processHeader env t (hdr it) = (?h, True, None)"
        using base by (simp add: shouldSkipDockerIgnoredFile_def)
      moreover have "is_excluded env (excludes t) it" using True meta by (simp add: is_excluded_def)
      ultimately show ?thesis using Cons.IH[OF rest, of p] by simp
    next
      case False
      with wf meta have ok: "Matches env ?n (excludes t) = Inr False" "WriteHeader env ?h = None"
        "read_err it = None" "Flush env ?h (body it) = None"
        by (auto simp: well_formed_item_def Let_def)
      then have "processHeader env t (hdr it) = (?h, False, None)"
        using base by (simp add: shouldSkipDockerIgnoredFile_def)
      moreover have "\<not> is_excluded env (excludes t) it" using ok(1) by (simp add: is_excluded_def)
      ultimately show ?thesis
        using ok meta Cons.IH[OF rest, of "p\<lparr>written := written p @ [(?h, body it)]\<rparr>"]
        by (simp add: Let_def emitted_for_def)
    qed
  qed
qed

lemma written_transform_subseq:
  "\<exists>ys. subseq ys (entries src) \<and>
        (\<forall>it\<in>set ys. Matches env (strip_first_segment (Name (hdr it))) ex = Inr False) \<and>
        written (transform env src ex) = map emitted_for ys"
proof (cases src)
  case (NotGzip e)
  then have "written (transform env src ex) = map emitted_for []"
    by (simp add: transform_def startStrippingPipe_def newTarPrefixStripper_def newPipe_def
        CloseWithError_def)
  then show ?thesis by (metis list_emb_Nil empty_iff list.set(1))
next
  case (Gzip its fin)
  from loop_written_subseq[of its env "newTarPrefixStripper src ex" fin newPipe]
  show ?thesis using Gzip
    by (simp add: transform_def startStrippingPipe_def newTarPrefixStripper_def newPipe_def
        entries_def)
qed

lemma closed_once_after_gzip_opens:
  "src_closed (transform env (Gzip its fin) ex) = 1 \<and>
   pw_closed (transform env (Gzip its fin) ex) = 1 \<and>
   tw_closed (transform env (Gzip its fin) ex) = 1"
  using loop_counts[of env "newTarPrefixStripper (Gzip its fin) ex" its fin newPipe]
  by (simp add: transform_def startStrippingPipe_def newTarPrefixStripper_def newPipe_def)

section \<open>Renaming\<close>

text \<open>
  Claim C1. Every entry the transform emits comes from a source entry, and its name is
  the source name with exactly the first slash-delimited segment removed; header fields
  other than the name, and the payload, are those of the source entry. The example of
  the specification, \<^verbatim>\<open>reponame-abc123/subdir/file.go\<close>, is the witness.
\<close>

theorem emitted_name_is_source_name_stripped:
  "\<forall>e\<in>set (written (transform env src ex)).
     \<exists>it\<in>set (entries src).
       Name (fst e) = strip_first_segment (Name (hdr it)) \<and> e = emitted_for it"
proof
  fix e assume e: "e \<in> set (written (transform env src ex))"
  from written_transform_subseq[of src env ex] obtain ys where
    ys: "subseq ys (entries src)" "written (transform env src ex) = map emitted_for ys" by blast
  from e ys(2) obtain it where it: "it \<in> set ys" "e = emitted_for it" by auto
  from ys(1) it(1) have "it \<in> set (entries src)"
    by (auto elim: list_emb_set)
  with it(2) show "\<exists>it\<in>set (entries src).
       Name (fst e) = strip_first_segment (Name (hdr it)) \<and> e = emitted_for it"
    by (auto simp: emitted_for_def)
qed

theorem emitted_name_is_source_name_stripped_witness:
  "(file_header ''reponame-abc123/subdir/file.go'' ''x'' \<lparr>Name := ''subdir/file.go''\<rparr>, ''x'')
      \<in> set (written (transform example_env
            (Gzip [file_item ''reponame-abc123/subdir/file.go'' ''x''] None) [])) \<and>
   (\<exists>it\<in>set (entries (Gzip [file_item ''reponame-abc123/subdir/file.go'' ''x''] None)).
      ''subdir/file.go'' = strip_first_segment (Name (hdr it)))"
proof -
  let ?src = "Gzip [file_item ''reponame-abc123/subdir/file.go'' ''x''] None"
  let ?e = "(file_header ''reponame-abc123/subdir/file.go'' ''x'' \<lparr>Name := ''subdir/file.go''\<rparr>, ''x'')"
  have m: "?e \<in> set (written (transform example_env ?src []))"
    by (simp add: run_defs)
  from bspec[OF emitted_name_is_source_name_stripped m] m show ?thesis
    by auto
qed

text \<open>
  Claim C2. The claim says that no emitted name is absolute. The check for an absolute
  name is made on the source name, before the first segment is removed; a source name
  whose second segment is empty is not absolute, passes the check, and is emitted under
  a name that starts with the delimiter. The session ends cleanly.
\<close>

theorem emitted_absolute_name_after_empty_segment:
  "written (transform example_env (Gzip [file_item ''repo//etc/passwd'' ''x''] None) [])
     = [(file_header ''repo//etc/passwd'' ''x'' \<lparr>Name := ''/etc/passwd''\<rparr>, ''x'')] \<and>
   \<not> IsAbs ''repo//etc/passwd'' \<and> IsAbs ''/etc/passwd'' \<and>
   pw_err (transform example_env (Gzip [file_item ''repo//etc/passwd'' ''x''] None) []) = None"
  by (simp add: run_defs)

section \<open>Order of the output\<close>

text \<open>
  Claim C7. The emitted entries are the renamed images of a sub-sequence of the source
  entries, in source order: nothing is reordered, duplicated or inserted. This holds for
  every source, every pattern list and every behaviour of the matcher and the writer.
  (The sub-sequence need not be a proper one: an archive without skipped entries is
  emitted whole.)
\<close>

theorem output_is_subsequence:
  "\<exists>ys. subseq ys (entries src) \<and> written (transform env src ex) = map emitted_for ys"
  using written_transform_subseq[of src env ex] by blast

section \<open>Closing the streams\<close>

text \<open>
  Claim C8. The claim says that source and output are each closed exactly once on every
  exit path. When \<^verbatim>\<open>gzip.NewReader\<close> rejects the source, the code closes the pipe
  writer with the error and returns without calling \<^verbatim>\<open>t.tarball.Close()\<close>: the
  source is closed zero times. Every path through the loop closes it once
  (\<open>closed_once_after_gzip_opens\<close>).
\<close>

theorem source_left_open_when_gzip_fails:
  "src_closed (transform example_env (NotGzip ''gzip: invalid header'') []) = 0 \<and>
   pw_closed (transform example_env (NotGzip ''gzip: invalid header'') []) = 1 \<and>
   pw_err (transform example_env (NotGzip ''gzip: invalid header'') [])
     = Some (Lib ''gzip: invalid header'')"
  by (simp add: run_defs)

section \<open>Absolute paths\<close>

text \<open>
  The loop on a sequence of entries followed by more entries: if the first part alone
  would end cleanly, the loop goes on with the rest from the output written so far;
  otherwise it has stopped inside the first part.
\<close>

lemma loop_append:
  assumes "pw_closed p = 0"
  shows "strippingLoop env t (pre @ rest) fin p =
     (if pw_err (strippingLoop env t pre None p) = None
      then strippingLoop env t rest fin (p\<lparr>written := written (strippingLoop env t pre None p)\<rparr>)
      else strippingLoop env t pre None p)"
  using assms
proof (induction pre arbitrary: p)
  case Nil
  then show ?case by simp
next
  case (Cons it pre)
  obtain h skip err where ph: "processHeader env t (hdr it) = (h, skip, err)"
    by (metis prod_cases3)
  let ?p1 = "p\<lparr>written := written p @ [(h, body it)]\<rparr>"
  have p1: "pw_closed ?p1 = 0" using Cons.prems by simp
  show ?case
    using ph Cons.prems Cons.IH[OF Cons.prems] Cons.IH[OF p1]
    by (cases err; cases skip; cases "WriteHeader env h"; cases "read_err it";
        cases "Flush env h (body it)") (simp_all add: Let_def)
qed

lemma loop_append_clean:
  assumes "pw_closed p = 0" and "pw_err (strippingLoop env t pre None p) = None"
  shows "strippingLoop env t (pre @ rest) fin p =
     strippingLoop env t rest fin (p\<lparr>written := written (strippingLoop env t pre None p)\<rparr>)"
  using assms by (simp add: loop_append)

lemma loop_append_failed:
  assumes "pw_closed p = 0" and "pw_err (strippingLoop env t pre None p) \<noteq> None"
  shows "strippingLoop env t (pre @ rest) fin p = strippingLoop env t pre None p"
  using assms by (auto simp: loop_append)

lemma loop_excludes_only:
  assumes "excludes t = excludes t'"
  shows "strippingLoop env t its fin p = strippingLoop env t' its fin p"
proof (induction its arbitrary: p)
  case Nil
  show ?case by simp
next
  case (Cons it its)
  have same: "processHeader env t (hdr it) = processHeader env t' (hdr it)"
    using assms by (simp add: processHeader_eq shouldSkipDockerIgnoredFile_def)
  obtain h skip err where ph: "processHeader env t' (hdr it) = (h, skip, err)"
    by (metis prod_cases3)
  show ?case
    using ph same Cons.IH
    by (cases err; cases skip; cases "WriteHeader env h"; cases "read_err it";
        cases "Flush env h (body it)") (simp_all add: Let_def)
qed

lemma loop_abs_head:
  assumes "IsAbs (Name (hdr a))"
  shows "strippingLoop env t (a # post) fin p = closeFunc (Some (AbsolutePathError (Name (hdr a)))) p"
proof -
  from assms have "Name (hdr a) \<noteq> ''pax_global_header''"
    by (auto simp: IsAbs_def)
  with assms show ?thesis by (simp add: processHeader_eq)
qed

text \<open>
  Claim C4. Let a source entry with an absolute name stand after the entries \<open>pre\<close>
  and before the entries \<open>post\<close>. Then the session ends with an error and the pipe is
  closed; the output is exactly what the session writes for \<open>pre\<close>, so nothing at or
  after the absolute entry is emitted and what was written before it stays written. When
  nothing in \<open>pre\<close> has already ended the session, the error is the absolute-path error
  that names the entry.
\<close>

theorem absolute_path_aborts_session:
  assumes "IsAbs (Name (hdr a))"
  shows "written (transform env (Gzip (pre @ a # post) fin) ex)
           = written (transform env (Gzip pre None) ex) \<and>
         (\<exists>ys. subseq ys pre \<and>
            written (transform env (Gzip (pre @ a # post) fin) ex) = map emitted_for ys) \<and>
         pw_err (transform env (Gzip (pre @ a # post) fin) ex) \<noteq> None \<and>
         pw_closed (transform env (Gzip (pre @ a # post) fin) ex) = 1 \<and>
         (pw_err (transform env (Gzip pre None) ex) = None \<longrightarrow>
            pw_err (transform env (Gzip (pre @ a # post) fin) ex)
              = Some (AbsolutePathError (Name (hdr a))))"
proof -
  let ?t = "newTarPrefixStripper (Gzip (pre @ a # post) fin) ex"
  let ?t' = "newTarPrefixStripper (Gzip pre None) ex"
  have same: "strippingLoop env ?t its f p = strippingLoop env ?t' its f p" for its f p
    by (rule loop_excludes_only) (simp add: newTarPrefixStripper_def)
  have full: "transform env (Gzip (pre @ a # post) fin) ex
      = strippingLoop env ?t' (pre @ a # post) fin newPipe"
    using same by (simp add: transform_def startStrippingPipe_def newTarPrefixStripper_def)
  have part: "transform env (Gzip pre None) ex = strippingLoop env ?t' pre None newPipe"
    by (simp add: transform_def startStrippingPipe_def newTarPrefixStripper_def)
  have np: "pw_closed newPipe = 0" by (simp add: newPipe_def)
  have sub: "\<exists>ys. subseq ys pre \<and> written (transform env (Gzip pre None) ex) = map emitted_for ys"
    using written_transform_subseq[of "Gzip pre None" env ex] by (auto simp: entries_def)
  have cnt: "pw_closed (transform env (Gzip (pre @ a # post) fin) ex) = 1"
    using closed_once_after_gzip_opens by simp
  show ?thesis
  proof (cases "pw_err (strippingLoop env ?t' pre None newPipe) = None")
    case True
    have "transform env (Gzip (pre @ a # post) fin) ex =
        closeFunc (Some (AbsolutePathError (Name (hdr a))))
          (newPipe\<lparr>written := written (strippingLoop env ?t' pre None newPipe)\<rparr>)"
      unfolding full
      by (simp only: loop_append_clean[OF np True] loop_abs_head[OF assms])
    then show ?thesis using sub cnt part np True by simp
  next
    case False
    have "transform env (Gzip (pre @ a # post) fin) ex = transform env (Gzip pre None) ex"
      unfolding full part by (rule loop_append_failed[OF np False])
    then show ?thesis using sub cnt part False by simp
  qed
qed

theorem absolute_path_aborts_session_witness:
  "IsAbs (Name (hdr (file_item ''/etc/passwd'' ''P''))) \<and>
   written (transform example_env
      (Gzip ([file_item ''r/a.go'' ''A''] @ file_item ''/etc/passwd'' ''P'' # [file_item ''r/b.go'' ''B''])
         None) [])
     = [(file_header ''r/a.go'' ''A'' \<lparr>Name := ''a.go''\<rparr>, ''A'')] \<and>
   pw_err (transform example_env
      (Gzip ([file_item ''r/a.go'' ''A''] @ file_item ''/etc/passwd'' ''P'' # [file_item ''r/b.go'' ''B''])
         None) [])
     = Some (AbsolutePathError ''/etc/passwd'')"
proof -
  have a: "IsAbs (Name (hdr (file_item ''/etc/passwd'' ''P'')))"
    by (simp add: run_defs)
  have pre: "written (transform example_env (Gzip [file_item ''r/a.go'' ''A''] None) [])
      = [(file_header ''r/a.go'' ''A'' \<lparr>Name := ''a.go''\<rparr>, ''A'')]"
    "pw_err (transform example_env (Gzip [file_item ''r/a.go'' ''A''] None) []) = None"
    by (simp_all add: run_defs)
  from absolute_path_aborts_session[OF a, of example_env "[file_item ''r/a.go'' ''A'']"
      "[file_item ''r/b.go'' ''B'']" None "[]"] pre a
  show ?thesis by (simp add: file_item_def file_header_def)
qed

section \<open>Well-formed archives\<close>

text \<open>
  On a well-formed archive the session runs to the end of the source and closes cleanly;
  its output is the renamed image of the entries that are neither metadata nor excluded.
\<close>

lemma transform_well_formed:
  assumes "well_formed env ex src"
  shows "transform env src ex =
     closeFunc None (newPipe\<lparr>written :=
        map emitted_for (filter (\<lambda>it. \<not> is_metadata it \<and> \<not> is_excluded env ex it) (entries src))\<rparr>)"
proof (cases src)
  case (NotGzip e)
  with assms show ?thesis by (simp add: well_formed_def)
next
  case (Gzip its fin)
  with assms have fin: "fin = None" and wf: "list_all (well_formed_item env ex) its"
    by (simp_all add: well_formed_def)
  let ?t = "newTarPrefixStripper src ex"
  have ex: "excludes ?t = ex" by (simp add: newTarPrefixStripper_def)
  from wf have "list_all (well_formed_item env (excludes ?t)) its" by (simp only: ex)
  from loop_well_formed[OF this, of newPipe] show ?thesis
    using Gzip fin
    by (simp add: transform_def startStrippingPipe_def entries_def ex newPipe_def)
      (simp add: newTarPrefixStripper_def)
qed

lemma count_partition:
  "length (filter (\<lambda>it. \<not> is_metadata it \<and> \<not> is_excluded env ex it) its)
     + length (filter is_metadata its) + length (filter (is_excluded env ex) its) = length its"
  by (induction its) (auto simp: is_excluded_def)

text \<open>
  Claim C3. For a well-formed archive with \<open>N\<close> entries, of which \<open>M\<close> are metadata
  or synthetic entries (the header named \<^verbatim>\<open>pax_global_header\<close> and the bare top-level
  directory) and \<open>E\<close> are entries whose name after the rename matches the exclusion
  patterns, the output holds exactly \<open>N - M - E\<close> entries. \<open>E\<close> counts entries that
  are renamed, so no entry is counted in both \<open>M\<close> and \<open>E\<close>, and the subtraction
  on natural numbers does not truncate.
\<close>

theorem output_entry_count:
  assumes "well_formed env ex src"
  shows "length (written (transform env src ex))
           = length (entries src) - length (filter is_metadata (entries src))
               - length (filter (is_excluded env ex) (entries src)) \<and>
         length (filter is_metadata (entries src))
           + length (filter (is_excluded env ex) (entries src)) \<le> length (entries src)"
  using count_partition[of env ex "entries src"]
  by (simp add: transform_well_formed[OF assms])

theorem output_entry_count_witness:
  "well_formed example_env [''b.log''] example_source \<and>
   length (entries example_source) = 4 \<and>
   length (filter is_metadata (entries example_source)) = 2 \<and>
   length (filter (is_excluded example_env [''b.log'']) (entries example_source)) = 1 \<and>
   length (written (transform example_env example_source [''b.log''])) = 1"
proof -
  have wf: "well_formed example_env [''b.log''] example_source"
    by (simp add: example_source_def spec_defs run_defs)
  have n: "length (entries example_source) = 4"
    "length (filter is_metadata (entries example_source)) = 2"
    "length (filter (is_excluded example_env [''b.log'']) (entries example_source)) = 1"
    by (simp_all add: example_source_def spec_defs run_defs)
  from output_entry_count[OF wf] wf n show ?thesis by simp
qed

section \<open>Exclusion\<close>

text \<open>
  Claim C5. Entries whose name after the rename matches the exclusion patterns are
  omitted without ending the session, and the others are emitted. In three parts:
  in every session, the matcher has answered ``no match'' for the name of every entry
  written (so of an excluded entry neither header nor payload is written); a round of the
  loop on an excluded entry leaves the session state as it was and goes on with the next
  entry; and on a well-formed archive the output is exactly the renamed headers and the
  payloads of the entries that are neither metadata nor excluded, with a clean end.
\<close>

theorem excluded_entries_omitted:
  "(\<forall>e\<in>set (written (transform env src ex)). Matches env (Name (fst e)) ex = Inr False) \<and>
   (\<not> IsAbs (Name (hdr it)) \<and> is_excluded env ex it \<longrightarrow>
      strippingLoop env (newTarPrefixStripper src ex) (it # its) fin p
        = strippingLoop env (newTarPrefixStripper src ex) its fin p) \<and>
   (well_formed env ex src \<longrightarrow>
      written (transform env src ex)
        = map emitted_for
            (filter (\<lambda>it. \<not> is_metadata it \<and> \<not> is_excluded env ex it) (entries src)) \<and>
      pw_err (transform env src ex) = None)"
proof (intro conjI impI)
  show "\<forall>e\<in>set (written (transform env src ex)). Matches env (Name (fst e)) ex = Inr False"
  proof
    fix e assume e: "e \<in> set (written (transform env src ex))"
    from written_transform_subseq[of src env ex] obtain ys where
      ys: "\<forall>it\<in>set ys. Matches env (strip_first_segment (Name (hdr it))) ex = Inr False"
        "written (transform env src ex) = map emitted_for ys" by blast
    from e ys(2) obtain it where "it \<in> set ys" "e = emitted_for it" by auto
    with ys(1) show "Matches env (Name (fst e)) ex = Inr False"
      by (auto simp: emitted_for_def)
  qed
next
  assume a: "\<not> IsAbs (Name (hdr it)) \<and> is_excluded env ex it"
  let ?t = "newTarPrefixStripper src ex"
  let ?h = "(hdr it)\<lparr>Name := strip_first_segment (Name (hdr it))\<rparr>"
  from a have "processHeader env ?t (hdr it) = (?h, True, None)"
    by (simp add: processHeader_eq is_excluded_def is_metadata_def
        shouldSkipDockerIgnoredFile_def newTarPrefixStripper_def)
  then show "strippingLoop env ?t (it # its) fin p = strippingLoop env ?t its fin p"
    by simp
next
  assume wf: "well_formed env ex src"
  show "written (transform env src ex)
        = map emitted_for
            (filter (\<lambda>it. \<not> is_metadata it \<and> \<not> is_excluded env ex it) (entries src))"
    by (simp add: transform_well_formed[OF wf])
  show "pw_err (transform env src ex) = None"
    by (simp add: transform_well_formed[OF wf] newPipe_def)
qed

theorem excluded_entries_omitted_witness:
  "well_formed example_env [''b.log''] example_source \<and>
   \<not> IsAbs (Name (hdr (file_item ''r/b.log'' ''B''))) \<and>
   is_excluded example_env [''b.log''] (file_item ''r/b.log'' ''B'') \<and>
   written (transform example_env example_source [''b.log''])
     = [(file_header ''r/a.go'' ''A'' \<lparr>Name := ''a.go''\<rparr>, ''A'')] \<and>
   (file_header ''r/a.go'' ''A'' \<lparr>Name := ''a.go''\<rparr>, ''A'')
     \<in> set (written (transform example_env example_source [''b.log''])) \<and>
   Matches example_env ''a.go'' [''b.log''] = Inr False \<and>
   pw_err (transform example_env example_source [''b.log'']) = None \<and>
   strippingLoop example_env (newTarPrefixStripper example_source [''b.log''])
       (file_item ''r/b.log'' ''B'' # []) None newPipe
     = strippingLoop example_env (newTarPrefixStripper example_source [''b.log'']) [] None newPipe"
proof -
  have wf: "well_formed example_env [''b.log''] example_source"
    by (simp add: example_source_def spec_defs run_defs)
  have ex: "\<not> IsAbs (Name (hdr (file_item ''r/b.log'' ''B'')))"
    "is_excluded example_env [''b.log''] (file_item ''r/b.log'' ''B'')"
    by (simp_all add: spec_defs run_defs)
  have out: "map emitted_for (filter (\<lambda>it. \<not> is_metadata it \<and> \<not> is_excluded example_env [''b.log''] it)
        (entries example_source)) = [(file_header ''r/a.go'' ''A'' \<lparr>Name := ''a.go''\<rparr>, ''A'')]"
    by (simp add: example_source_def spec_defs run_defs)
  have m: "Matches example_env ''a.go'' [''b.log''] = Inr False"
    by (simp add: example_env_def)
  from excluded_entries_omitted[of example_env example_source "[''b.log'']"
      "file_item ''r/b.log'' ''B''" "[]" None newPipe] wf ex out m
  show ?thesis by simp
qed

section \<open>Names without a delimiter\<close>

text \<open>
  Claim C6 says that a name without a delimiter is left unchanged by the rename. The
  name \<^verbatim>\<open>README\<close> is not the metadata name, is not absolute and holds no delimiter;
  \<^verbatim>\<open>processHeader\<close> renames it to the empty string: the split has one piece, and
  the join of the pieces after the first is the join of none.
\<close>

theorem delimiterless_name_not_kept:
  "CHR ''/'' \<notin> set ''README'' \<and> ''README'' \<noteq> ''pax_global_header'' \<and> \<not> IsAbs ''README'' \<and>
   processHeader example_env (newTarPrefixStripper (Gzip [] None) []) (file_header ''README'' ''x'')
     = (file_header ''README'' ''x'' \<lparr>Name := []\<rparr>, False, None) \<and>
   Name (fst (processHeader example_env (newTarPrefixStripper (Gzip [] None) [])
      (file_header ''README'' ''x''))) \<noteq> ''README''"
  by (simp add: run_defs)

lemma strip_no_delimiter:
  assumes "CHR ''/'' \<notin> set n"
  shows "strip_first_segment n = []"
proof -
  from assms have dw: "dropWhile (\<lambda>c. c \<noteq> CHR ''/'') n = []"
    by (auto simp: dropWhile_eq_Nil_conv)
  show ?thesis by (simp only: strip_first_segment_def dw drop_Nil)
qed

lemma no_delimiter_not_special:
  "CHR ''/'' \<notin> set n \<Longrightarrow> \<not> IsAbs n \<and> \<not> bare_top_directory n"
  using last_in_set[of n] by (cases n) (auto simp: IsAbs_def bare_top_directory_def)

text \<open>
  Claim C6, amended. For every entry whose name holds no delimiter and is not the metadata
  name (such a name is never absolute), the rename is not an error and removes the only
  segment: the name becomes the empty string, and the entry goes to the exclusion test
  under that name.
\<close>

theorem delimiterless_name_becomes_empty:
  assumes "CHR ''/'' \<notin> set (Name h)" and "Name h \<noteq> ''pax_global_header''"
  shows "processHeader env t h
           = (h\<lparr>Name := []\<rparr>, shouldSkipDockerIgnoredFile env t (h\<lparr>Name := []\<rparr>)) \<and>
         (Matches env [] (excludes t) = Inr m \<longrightarrow>
            processHeader env t h = (h\<lparr>Name := []\<rparr>, m, None))"
  using assms no_delimiter_not_special[of "Name h"] strip_no_delimiter[of "Name h"]
  by (simp add: processHeader_eq shouldSkipDockerIgnoredFile_def)

theorem delimiterless_name_becomes_empty_witness:
  "CHR ''/'' \<notin> set (Name (file_header ''README'' ''x'')) \<and>
   Name (file_header ''README'' ''x'') \<noteq> ''pax_global_header'' \<and>
   Matches example_env [] (excludes (newTarPrefixStripper (Gzip [] None) [])) = Inr False \<and>
   processHeader example_env (newTarPrefixStripper (Gzip [] None) []) (file_header ''README'' ''x'')
     = (file_header ''README'' ''x'' \<lparr>Name := []\<rparr>, False, None)"
proof -
  have a: "CHR ''/'' \<notin> set (Name (file_header ''README'' ''x''))"
    "Name (file_header ''README'' ''x'') \<noteq> ''pax_global_header''"
    by (simp_all add: file_header_def)
  have m: "Matches example_env [] (excludes (newTarPrefixStripper (Gzip [] None) [])) = Inr False"
    by (simp add: example_env_def newTarPrefixStripper_def)
  from delimiterless_name_becomes_empty[OF a, of example_env
      "newTarPrefixStripper (Gzip [] None) []" False] a m
  show ?thesis by blast
qed

section \<open>The ignore file\<close>

text \<open>A stripper returned by the fetch carries the patterns the fetch was given.\<close>

lemma getArchive_excludes: "getArchive gf u ex = Inr t \<Longrightarrow> excludes t = ex"
  by (auto simp: getArchive_def newTarPrefixStripper_def Let_def
      split: sum.splits prod.splits option.splits if_splits)

lemma fetchArchive_excludes:
  "fetchArchive gf owner repo ref ex = Returns (Inr t) \<Longrightarrow> excludes t = ex"
  by (auto simp: fetchArchive_def Let_def dest: getArchive_excludes
      split: prod.splits option.splits if_splits)

text \<open>
  Claim C9. When the content call for the ignore file fails with status 404,
  \<^verbatim>\<open>parseDockerIgnoreIfExists\<close> returns the empty pattern list and no error, and
  \<^verbatim>\<open>Get\<close> goes on to the archive with that list. A stripper that \<^verbatim>\<open>Get\<close>
  returns then holds no patterns, and its session is the transform of its source with an
  explicitly empty exclusion list; with a matcher that matches nothing against the empty
  list, the exclusion test skips no entry.
\<close>

theorem absent_ignore_file_gives_empty_excludes:
  assumes "GetContents gf owner repo dockerIgnorePath ref = (fc, Some r, Some e)"
    and "StatusCode r = 404"
  shows "parseDockerIgnoreIfExists gf owner repo ref = Returns (Inr []) \<and>
         Get gf owner repo ref = fetchArchive gf owner repo ref [] \<and>
         (Get gf owner repo ref = Returns (Inr t) \<longrightarrow>
            excludes t = [] \<and>
            startStrippingPipe env t newPipe = transform env (tarball t) [] \<and>
            ((\<forall>n. Matches env n [] = Inr False) \<longrightarrow>
               (\<forall>h. shouldSkipDockerIgnoredFile env t h = (False, None))))"
proof -
  have parse: "parseDockerIgnoreIfExists gf owner repo ref = Returns (Inr [])"
    using assms by (simp add: parseDockerIgnoreIfExists_def)
  then have get: "Get gf owner repo ref = fetchArchive gf owner repo ref []"
    by (simp add: Get_def)
  have "excludes t = [] \<and>
        startStrippingPipe env t newPipe = transform env (tarball t) [] \<and>
        ((\<forall>n. Matches env n [] = Inr False) \<longrightarrow>
           (\<forall>h. shouldSkipDockerIgnoredFile env t h = (False, None)))"
    if "Get gf owner repo ref = Returns (Inr t)"
  proof -
    from that get have ex: "excludes t = []" by (simp add: fetchArchive_excludes)
    then have "t = newTarPrefixStripper (tarball t) []"
      by (simp add: newTarPrefixStripper_def)
    then have "startStrippingPipe env t newPipe = transform env (tarball t) []"
      by (simp add: transform_def)
    with ex show ?thesis by (simp add: shouldSkipDockerIgnoredFile_def)
  qed
  with parse get show ?thesis by blast
qed

theorem absent_ignore_file_gives_empty_excludes_witness:
  "GetContents example_remote ''owner'' ''repo'' dockerIgnorePath ''main''
     = (None, Some \<lparr>StatusCode = 404, Status = ''404 Not Found''\<rparr>, Some ''404 Not Found'') \<and>
   StatusCode \<lparr>StatusCode = 404, Status = ''404 Not Found''\<rparr> = 404 \<and>
   Get example_remote ''owner'' ''repo'' ''main''
     = Returns (Inr (newTarPrefixStripper example_source [])) \<and>
   (\<forall>n. Matches example_env n [] = Inr False) \<and>
   startStrippingPipe example_env (newTarPrefixStripper example_source []) newPipe
     = transform example_env example_source [] \<and>
   (\<forall>h. shouldSkipDockerIgnoredFile example_env (newTarPrefixStripper example_source []) h
      = (False, None))"
proof -
  let ?r = "\<lparr>StatusCode = 404, Status = ''404 Not Found''\<rparr>"
  have gc: "GetContents example_remote ''owner'' ''repo'' dockerIgnorePath ''main''
     = (None, Some ?r, Some ''404 Not Found'')"
    by (simp add: example_remote_def)
  have st: "StatusCode ?r = 404" by simp
  have fa: "fetchArchive example_remote ''owner'' ''repo'' ''main'' []
      = Returns (Inr (newTarPrefixStripper example_source []))"
    by (simp add: fetchArchive_def getArchive_def example_remote_def)
  have m: "\<forall>n. Matches example_env n [] = Inr False"
    by (simp add: example_env_def)
  have tb: "tarball (newTarPrefixStripper example_source []) = example_source"
    by (simp add: newTarPrefixStripper_def)
  from absent_ignore_file_gives_empty_excludes[OF gc st,
      of "newTarPrefixStripper example_source []" example_env] gc st fa m tb
  show ?thesis by simp
qed

text \<open>
  Claim C10. In the error branch of \<^verbatim>\<open>parseDockerIgnoreIfExists\<close> the status code
  is read through the response pointer. When the content call returns an error, the
  operation panics exactly when the response is \<^verbatim>\<open>nil\<close>, and then returns no error
  value; with a response present it returns the empty list for status 404 and the
  descriptive error otherwise.
\<close>

theorem error_branch_panics_iff_nil_response:
  assumes "GetContents gf owner repo dockerIgnorePath ref = (fc, resp, Some e)"
  shows "(parseDockerIgnoreIfExists gf owner repo ref = Panics \<longleftrightarrow> resp = None) \<and>
         (\<forall>r. resp = Some r \<longrightarrow>
            parseDockerIgnoreIfExists gf owner repo ref
              = Returns (if StatusCode r = 404 then Inr []
                         else Inl (GettingDockerignoreError e)))"
  using assms by (cases resp) (simp_all add: parseDockerIgnoreIfExists_def)

theorem error_branch_panics_iff_nil_response_witness:
  "GetContents unreachable_remote ''owner'' ''repo'' dockerIgnorePath ''main''
     = (None, None, Some ''dial tcp: i/o timeout'') \<and>
   parseDockerIgnoreIfExists unreachable_remote ''owner'' ''repo'' ''main'' = Panics \<and>
   GetContents example_remote ''owner'' ''repo'' dockerIgnorePath ''main''
     = (None, Some \<lparr>StatusCode = 404, Status = ''404 Not Found''\<rparr>, Some ''404 Not Found'') \<and>
   parseDockerIgnoreIfExists example_remote ''owner'' ''repo'' ''main'' = Returns (Inr [])"
proof -
  have gc: "GetContents unreachable_remote ''owner'' ''repo'' dockerIgnorePath ''main''
     = (None, None, Some ''dial tcp: i/o timeout'')"
    by (simp add: unreachable_remote_def)
  have gc': "GetContents example_remote ''owner'' ''repo'' dockerIgnorePath ''main''
     = (None, Some \<lparr>StatusCode = 404, Status = ''404 Not Found''\<rparr>, Some ''404 Not Found'')"
    by (simp add: example_remote_def)
  from error_branch_panics_iff_nil_response[OF gc] error_branch_panics_iff_nil_response[OF gc']
    gc gc'
  show ?thesis by simp
qed

end
